theory Spec2Isabelle
  imports Main "HOL-Library.Char_ord" "HOL-Library.List_Lexorder"
begin

section \<open>Python values used by both modules\<close>

text \<open>
  Exceptions are values. \<open>IndexError\<close> is raised by \<open>xs[i]\<close> out of range,
  \<open>AttributeError\<close> by reading an attribute an object does not have, \<open>ValueError\<close> by
  \<open>int()\<close> on text that is no integer.
\<close>

datatype error = IndexError | AttributeError | ValueError

text \<open>\<open>xs[i]\<close> on a list or deque: negative indices count from the end.\<close>

definition py_index :: "'a list \<Rightarrow> int \<Rightarrow> error + 'a" where
  "py_index xs i =
     (if 0 \<le> i \<and> i < int (length xs) then Inr (xs ! nat i)
      else if i < 0 \<and> - int (length xs) \<le> i then Inr (xs ! nat (int (length xs) + i))
      else Inl IndexError)"

text \<open>\<open>xs[:n]\<close>: a negative bound counts from the end, and the slice never raises.\<close>

definition py_slice_to :: "'a list \<Rightarrow> int \<Rightarrow> 'a list" where
  "py_slice_to xs n = (if n < 0 then take (nat (int (length xs) + n)) xs else take (nat n) xs)"

text \<open>\<open>sep.join(xs)\<close> on strings.\<close>

fun join :: "string \<Rightarrow> string list \<Rightarrow> string" where
  "join sep [] = []"
| "join sep [x] = x"
| "join sep (x # y # ys) = x @ sep @ join sep (y # ys)"

text \<open>
  \<open>x in s\<close> on two strings: \<open>x\<close> occurs in \<open>s\<close> as a contiguous run of characters.
\<close>

fun starts_with :: "string \<Rightarrow> string \<Rightarrow> bool" where
  "starts_with [] s = True"
| "starts_with (c # cs) [] = False"
| "starts_with (c # cs) (d # ds) = (c = d \<and> starts_with cs ds)"

fun str_in :: "string \<Rightarrow> string \<Rightarrow> bool" where
  "str_in x [] = (x = [])"
| "str_in x (c # cs) = (starts_with x (c # cs) \<or> str_in x cs)"

text \<open>\<open>deque(maxlen=m).append(x)\<close>: a full deque drops from the left.\<close>

definition deque_append :: "nat \<Rightarrow> 'a list \<Rightarrow> 'a \<Rightarrow> 'a list" where
  "deque_append maxlen d x = (let d' = d @ [x] in drop (length d' - maxlen) d')"

section \<open>The artist page cache (app/api/artist.py)\<close>

subsection \<open>Models and stores\<close>

text \<open>
  Modelled from the spec: the classes \<open>Track\<close>, \<open>Album\<close> and \<open>Artist\<close> of
  \<open>app.models\<close> are not part of the sources at hand. The records hold the attributes that
  \<open>artist.py\<close> reads and writes. Following the data model of the specification, an album
  carries the set of artist identities credited as its primary artists, so that
  \<open>artisthash in a.albumartists_hashes\<close> is membership in that set; objects compare by
  their attributes.
\<close>

record Track =
  trackhash :: string
  track_albumhash :: string
  duration :: int

record Album =
  albumhash :: string
  title :: string
  albumartists_hashes :: "string set"
  date :: int
  is_single :: bool
  is_EP :: bool
  is_compilation :: bool

record Artist =
  name :: string
  trackcount :: int
  albumcount :: int
  artist_duration :: int
  is_favorite :: bool

text \<open>
  The stores, the favourites table, the duplicate filter and the per-album analysis passes
  are collaborators outside \<open>artist.py\<close>; the model takes them as parameters. The three
  analysis passes update an album in place; here they return the updated album.

  The order in which Python iterates a set of strings depends on the hash seed of the
  process, so it is a parameter too: \<open>set_iteration\<close> maps the elements put into a set, in
  the order they were put, to the elements in the order the set iterates them.
\<close>

record Stores =
  get_album_by_hash :: "string \<Rightarrow> Album option"
  store_albums_by_artisthash :: "string \<Rightarrow> Album list"
  count_albums_by_artisthash :: "string \<Rightarrow> int"
  get_tracks_by_artist :: "string \<Rightarrow> Track list"
  get_tracks_by_albumhash :: "string \<Rightarrow> Track list"
  get_artist_by_hash :: "string \<Rightarrow> Artist option"
  check_is_favorite :: "string \<Rightarrow> bool"
  remove_duplicates :: "Track list \<Rightarrow> Track list"
  check_type :: "Album \<Rightarrow> Album"
  get_date_from_tracks :: "Album \<Rightarrow> Track list \<Rightarrow> Album"
  check_is_single :: "Album \<Rightarrow> Track list \<Rightarrow> Album"
  set_iteration :: "string list \<Rightarrow> string list"

subsection \<open>CacheEntry and ArtistsCache\<close>

text \<open>
  \<open>albumhashes\<close> is a Python set of strings; the list holds its elements in the order the
  set iterates them.
\<close>

record CacheEntry =
  albums :: "Album list"
  tracks :: "Track list"
  artisthash :: string
  albumhashes :: "string list"
  type_checked :: bool
  albums_fetched :: bool

definition CacheEntry_init :: "string \<Rightarrow> string list \<Rightarrow> Track list \<Rightarrow> CacheEntry" where
  "CacheEntry_init h hs ts =
     \<lparr>albums = [], tracks = (if length ts > 0 then ts else []), artisthash = h,
      albumhashes = hs, type_checked = False, albums_fetched = False\<rparr>"

text \<open>The class attribute \<open>artists = deque(maxlen=1)\<close> is the whole state of the cache.\<close>

type_synonym ArtistsCache = "CacheEntry list"

definition artists_maxlen :: nat where
  "artists_maxlen = 1"

definition artists_init :: ArtistsCache where
  "artists_init = []"

fun enumerate_lookup :: "int \<Rightarrow> CacheEntry list \<Rightarrow> string \<Rightarrow> Album list \<times> int" where
  "enumerate_lookup i [] h = ([], - 1)"
| "enumerate_lookup i (e # es) h =
     (if artisthash e = h then (albums e, i) else enumerate_lookup (i + 1) es h)"

definition get_albums_by_artisthash :: "ArtistsCache \<Rightarrow> string \<Rightarrow> Album list \<times> int" where
  "get_albums_by_artisthash c h = enumerate_lookup 0 c h"

fun albums_cached :: "ArtistsCache \<Rightarrow> string \<Rightarrow> bool" where
  "albums_cached [] h = False"
| "albums_cached (e # es) h =
     (if artisthash e = h \<and> length (albums e) > 0 then True else albums_cached es h)"

text \<open>The method \<open>albums_fetched\<close>; it returns \<open>None\<close> when no entry matches.\<close>

fun albums_fetched_of :: "ArtistsCache \<Rightarrow> string \<Rightarrow> bool option" where
  "albums_fetched_of [] h = None"
| "albums_fetched_of (e # es) h =
     (if artisthash e = h then Some (albums_fetched e) else albums_fetched_of es h)"

fun tracks_cached :: "ArtistsCache \<Rightarrow> string \<Rightarrow> bool" where
  "tracks_cached [] h = False"
| "tracks_cached (e # es) h =
     (if artisthash e = h \<and> length (tracks e) > 0 then True else tracks_cached es h)"

definition add_entry :: "ArtistsCache \<Rightarrow> string \<Rightarrow> string list \<Rightarrow> Track list \<Rightarrow> ArtistsCache" where
  "add_entry c h hs ts = deque_append artists_maxlen c (CacheEntry_init h hs ts)"

text \<open>\<open>[a for a in cls.artists if a.artisthash == artisthash][0]\<close>\<close>

definition find_entry :: "ArtistsCache \<Rightarrow> string \<Rightarrow> error + CacheEntry" where
  "find_entry c h = py_index (filter (\<lambda>a. artisthash a = h) c) 0"

text \<open>
  The entry found is an object of the deque, updated in place: the first entry of the deque
  with that artist hash.
\<close>

fun update_entry :: "string \<Rightarrow> (CacheEntry \<Rightarrow> CacheEntry) \<Rightarrow> ArtistsCache \<Rightarrow> ArtistsCache" where
  "update_entry h f [] = []"
| "update_entry h f (e # es) =
     (if artisthash e = h then f e # es else e # update_entry h f es)"

definition get_tracks :: "ArtistsCache \<Rightarrow> string \<Rightarrow> error + Track list" where
  "get_tracks c h = (case find_entry c h of Inl err \<Rightarrow> Inl err | Inr entry \<Rightarrow> Inr (tracks entry))"

definition merge_store_albums :: "Album list \<Rightarrow> Album list \<Rightarrow> Album list" where
  "merge_store_albums resolved store_albums =
     (let all_albums_hash = join ''-'' (map albumhash resolved)
      in fold (\<lambda>album acc. if \<not> str_in (albumhash album) all_albums_hash
                             then acc @ [album] else acc)
           store_albums resolved)"

definition get_albums :: "Stores \<Rightarrow> ArtistsCache \<Rightarrow> string \<Rightarrow> error + ArtistsCache" where
  "get_albums S c h =
     (case find_entry c h of
        Inl err \<Rightarrow> Inl err
      | Inr entry \<Rightarrow>
          (let found = map (get_album_by_hash S) (albumhashes entry);
               resolved = concat (map (\<lambda>album. case album of None \<Rightarrow> [] | Some a \<Rightarrow> [a]) found);
               store_albums = store_albums_by_artisthash S h;
               merged = merge_store_albums resolved store_albums
           in Inr (update_entry h (\<lambda>e. e\<lparr>albums := merged, albums_fetched := True\<rparr>) c)))"

definition analyse_album :: "Stores \<Rightarrow> Album \<Rightarrow> Album" where
  "analyse_album S album =
     (let a1 = check_type S album;
          album_tracks = remove_duplicates S (get_tracks_by_albumhash S (albumhash a1));
          a2 = get_date_from_tracks S a1 album_tracks
      in check_is_single S a2 album_tracks)"

definition process_album_type :: "Stores \<Rightarrow> ArtistsCache \<Rightarrow> string \<Rightarrow> error + ArtistsCache" where
  "process_album_type S c h =
     (case find_entry c h of
        Inl err \<Rightarrow> Inl err
      | Inr entry \<Rightarrow>
          Inr (update_entry h
                 (\<lambda>e. e\<lparr>albums := map (analyse_album S) (albums e), type_checked := True\<rparr>) c))"

text \<open>
  \<open>set(t.albumhash for t in tracks)\<close>: the album hashes of the tracks, in the order the set
  iterates them.
\<close>

definition add_albums_to_cache :: "Stores \<Rightarrow> ArtistsCache \<Rightarrow> string \<Rightarrow> bool \<times> ArtistsCache" where
  "add_albums_to_cache S c h =
     (let ts = get_tracks_by_artist S h
      in if length ts = 0 then (False, c)
         else (True, add_entry c h (set_iteration S (map track_albumhash ts)) []))"

text \<open>A run of \<open>add_entry\<close> calls, and every cache state it passes through.\<close>

fun add_entries :: "ArtistsCache \<Rightarrow> (string \<times> string list \<times> Track list) list \<Rightarrow> ArtistsCache" where
  "add_entries c [] = c"
| "add_entries c ((h, hs, ts) # calls) = add_entries (add_entry c h hs ts) calls"

fun add_entries_trace :: "ArtistsCache \<Rightarrow> (string \<times> string list \<times> Track list) list \<Rightarrow> ArtistsCache list" where
  "add_entries_trace c [] = [c]"
| "add_entries_trace c ((h, hs, ts) # calls) = c # add_entries_trace (add_entry c h hs ts) calls"

subsection \<open>The request handlers\<close>

text \<open>
  \<open>request.args.get("limit")\<close> is \<open>None\<close> or a text, and \<open>int(limit)\<close> is an integer
  or raises \<open>ValueError\<close>. The model keeps of the text what \<open>int()\<close> makes of it.
\<close>

datatype limit_arg = Missing | Number int | NotANumber

definition read_limit :: "limit_arg \<Rightarrow> error + int" where
  "read_limit l = (case l of Missing \<Rightarrow> Inr 6 | Number n \<Rightarrow> Inr n | NotANumber \<Rightarrow> Inl ValueError)"

text \<open>The answer of \<open>get_artist\<close>: the 404 body, or the artist with the sliced tracks.\<close>

datatype artist_response = ArtistNotFound | ArtistSummary Artist "Track list"

definition artist_summary ::
  "Stores \<Rightarrow> string \<Rightarrow> int \<Rightarrow> Artist \<Rightarrow> Track list \<Rightarrow> artist_response" where
  "artist_summary S h limit0 artist ts =
     (let tcount = int (length ts);
          acount = count_albums_by_artisthash S h;
          limit = (if acount = 0 \<and> tcount < 10 then tcount else limit0);
          artist1 = artist\<lparr>trackcount := tcount\<rparr>;
          artist2 = artist1\<lparr>albumcount := acount\<rparr>;
          artist3 = artist2\<lparr>artist_duration := sum_list (map duration ts)\<rparr>;
          artist4 = artist3\<lparr>is_favorite := check_is_favorite S h\<rparr>
      in ArtistSummary artist4 (py_slice_to ts limit))"

text \<open>
  Lines 180 to 192 of \<open>get_artist\<close>: the tracks come from the cache when it holds tracks
  for the artist, and otherwise from the track store, and are then cached. The two sets of
  album hashes are only united before the entry is made, so the entry holds the elements
  of both in the order their union iterates them.
\<close>

definition load_tracks ::
  "Stores \<Rightarrow> ArtistsCache \<Rightarrow> string \<Rightarrow> error + (Track list \<times> ArtistsCache)" where
  "load_tracks S c h =
     (if tracks_cached c h
      then (case get_tracks c h of Inl err \<Rightarrow> Inl err | Inr ts \<Rightarrow> Inr (ts, c))
      else (let ts = get_tracks_by_artist S h;
                albumhashes0 = map track_albumhash ts;
                hashes_from_albums = map albumhash (store_albums_by_artisthash S h);
                albumhashes1 = set_iteration S (albumhashes0 @ hashes_from_albums)
            in Inr (ts, add_entry c h albumhashes1 ts)))"

text \<open>
  A handler returns its answer or the exception that leaves it, and the cache as it has
  left it.
\<close>

definition get_artist ::
  "Stores \<Rightarrow> ArtistsCache \<Rightarrow> string \<Rightarrow> limit_arg \<Rightarrow> (error + artist_response) \<times> ArtistsCache" where
  "get_artist S c h l =
     (case read_limit l of
        Inl err \<Rightarrow> (Inl err, c)
      | Inr limit \<Rightarrow>
          (case get_artist_by_hash S h of
             None \<Rightarrow> (Inr ArtistNotFound, c)
           | Some artist \<Rightarrow>
               (case load_tracks S c h of
                  Inl err \<Rightarrow> (Inl err, c)
                | Inr (ts, c') \<Rightarrow> (Inr (artist_summary S h limit artist ts), c'))))"

text \<open>The five lists that \<open>get_artist_albums\<close> computes from \<open>all_albums\<close>.\<close>

record Buckets =
  b_albums :: "Album list"
  b_singles :: "Album list"
  b_eps :: "Album list"
  b_appearances :: "Album list"
  b_compilations :: "Album list"

definition remove_EPs_and_singles :: "Album list \<Rightarrow> Album list" where
  "remove_EPs_and_singles xs =
     (let xs1 = filter (\<lambda>a. \<not> is_EP a) xs;
          xs2 = filter (\<lambda>a. \<not> is_single a) xs1
      in xs2)"

text \<open>
  \<open>xs.remove(x)\<close> deletes the first element equal to \<open>x\<close> and raises \<open>ValueError\<close> when
  there is none; \<open>for c in compilations: albums.remove(c)\<close> does so for each compilation
  in turn.
\<close>

definition py_remove :: "'a \<Rightarrow> 'a list \<Rightarrow> error + 'a list" where
  "py_remove x xs = (if x \<in> set xs then Inr (remove1 x xs) else Inl ValueError)"

fun remove_each :: "'a list \<Rightarrow> 'a list \<Rightarrow> error + 'a list" where
  "remove_each [] xs = Inr xs"
| "remove_each (c # cs) xs =
     (case py_remove c xs of Inl err \<Rightarrow> Inl err | Inr xs' \<Rightarrow> remove_each cs xs')"

text \<open>Lines 235 to 254.\<close>

definition classify :: "string \<Rightarrow> Album list \<Rightarrow> error + Buckets" where
  "classify h all_albums =
     (let singles = filter is_single all_albums;
          eps = filter is_EP all_albums;
          albums0 = filter (\<lambda>a. h \<in> albumartists_hashes a) all_albums;
          albums1 = remove_EPs_and_singles albums0;
          compilations = filter is_compilation albums1;
          appearances0 = filter (\<lambda>a. h \<notin> albumartists_hashes a) all_albums;
          appearances = remove_EPs_and_singles appearances0
      in case remove_each compilations albums1 of
           Inl err \<Rightarrow> Inl err
         | Inr albums2 \<Rightarrow>
             Inr \<lparr>b_albums = albums2, b_singles = singles, b_eps = eps,
                  b_appearances = appearances, b_compilations = compilations\<rparr>)"

text \<open>The same five lists in the words of the specification (section 4.5).\<close>

definition spec_candidates :: "string \<Rightarrow> Album list \<Rightarrow> Album list" where
  "spec_candidates h xs =
     filter (\<lambda>a. h \<in> albumartists_hashes a \<and> \<not> is_EP a \<and> \<not> is_single a) xs"

definition spec_buckets :: "string \<Rightarrow> Album list \<Rightarrow> Buckets" where
  "spec_buckets h xs =
     \<lparr>b_albums = filter (\<lambda>a. \<not> is_compilation a) (spec_candidates h xs),
      b_singles = filter is_single xs,
      b_eps = filter is_EP xs,
      b_appearances =
        filter (\<lambda>a. h \<notin> albumartists_hashes a \<and> \<not> is_EP a \<and> \<not> is_single a) xs,
      b_compilations = filter is_compilation (spec_candidates h xs)\<rparr>"

record albums_response =
  artistname :: string
  r_albums :: "Album list"
  r_singles :: "Album list"
  r_eps :: "Album list"
  r_appearances :: "Album list"
  r_compilations :: "Album list"

text \<open>Lines 235 to 268: the classification, the \<open>all\<close> flag and the slices.\<close>

definition albums_answer ::
  "Stores \<Rightarrow> string \<Rightarrow> int \<Rightarrow> string option \<Rightarrow> Album list \<Rightarrow> error + albums_response" where
  "albums_answer S h limit0 return_all all_albums =
     (case classify h all_albums of
        Inl err \<Rightarrow> Inl err
      | Inr b \<Rightarrow>
          (case get_artist_by_hash S h of
             None \<Rightarrow> Inl AttributeError
           | Some artist \<Rightarrow>
               (let limit = (if return_all \<noteq> None then int (length all_albums) else limit0)
                in Inr \<lparr>artistname = name artist,
                        r_albums = py_slice_to (b_albums b) limit,
                        r_singles = py_slice_to (b_singles b) limit,
                        r_eps = py_slice_to (b_eps b) limit,
                        r_appearances = py_slice_to (b_appearances b) limit,
                        r_compilations = py_slice_to (b_compilations b) limit\<rparr>)))"

text \<open>
  Lines 230 to 268, from a given cache state. \<open>all_albums\<close> is the list object of the
  entry, so after \<open>process_album_type\<close> has updated the albums in place the name refers to
  the updated albums; the model reads the list again. When no entry matches, it is the
  fresh empty list and the index is \<open>-1\<close>.
\<close>

definition albums_from_cache ::
  "Stores \<Rightarrow> ArtistsCache \<Rightarrow> string \<Rightarrow> int \<Rightarrow> string option
     \<Rightarrow> (error + albums_response) \<times> ArtistsCache" where
  "albums_from_cache S c h limit return_all =
     (let (all_albums0, index) = get_albums_by_artisthash c h
      in case py_index c index of
           Inl err \<Rightarrow> (Inl err, c)
         | Inr e \<Rightarrow>
             (case (if \<not> type_checked e then process_album_type S c h else Inr c) of
                Inl err \<Rightarrow> (Inl err, c)
              | Inr c' \<Rightarrow>
                  (let all_albums = fst (get_albums_by_artisthash c' h)
                   in (albums_answer S h limit return_all all_albums, c'))))"

definition get_artist_albums ::
  "Stores \<Rightarrow> ArtistsCache \<Rightarrow> string \<Rightarrow> limit_arg \<Rightarrow> string option
     \<Rightarrow> (error + albums_response) \<times> ArtistsCache" where
  "get_artist_albums S c h l return_all =
     (case read_limit l of
        Inl err \<Rightarrow> (Inl err, c)
      | Inr limit \<Rightarrow>
          (let is_cached = albums_cached c h;
               c1 = (if \<not> is_cached then snd (add_albums_to_cache S c h) else c);
               fetched = albums_fetched_of c1 h
           in case (if fetched \<noteq> Some True then get_albums S c1 h else Inr c1) of
                Inl err \<Rightarrow> (Inl err, c1)
              | Inr c2 \<Rightarrow> albums_from_cache S c2 h limit return_all))"

section \<open>The album index and the track pool (server/app/lib/albumslib.py)\<close>

text \<open>
  An element of \<open>api.ALBUMS\<close> is an album object whose \<open>hash\<close> can be read, or a
  malformed element: reading its \<open>hash\<close> raises.
\<close>

datatype index_album = IndexAlbum string | Malformed

fun read_hash :: "index_album \<Rightarrow> error + string" where
  "read_hash (IndexAlbum x) = Inr x"
| "read_hash Malformed = Inl AttributeError"

text \<open>
  The loop of \<open>find_album\<close>. The target hash is the same in every round, so the model takes
  it once. The \<open>try\<close> covers the test for equality only: after the \<open>except\<close> branch has
  printed the element, the comparison \<open>api.ALBUMS[mid].hash < hash\<close> reads the attribute
  again, outside the \<open>try\<close>. The last argument collects the positions printed. The
  bounds stay inside the list, so \<open>api.ALBUMS[mid]\<close> itself does not raise there.
\<close>

function find_album_loop ::
  "index_album list \<Rightarrow> string \<Rightarrow> int \<Rightarrow> int \<Rightarrow> nat list \<Rightarrow> (error + nat option) \<times> nat list" where
  "find_album_loop ALBUMS target left right printed =
     (if left \<le> right
      then (let mid = (left + right) div 2
            in case py_index ALBUMS mid of
                 Inl err \<Rightarrow> (Inl err, printed)
               | Inr a \<Rightarrow>
                   (let equal = (case read_hash a of
                                   Inr x \<Rightarrow> Some (x = target)
                                 | Inl err \<Rightarrow> None)
                    in if equal = Some True then (Inr (Some (nat mid)), printed)
                       else (let printed' = (if equal = None then printed @ [nat mid]
                                             else printed)
                             in case read_hash a of
                                  Inl err \<Rightarrow> (Inl err, printed')
                                | Inr x \<Rightarrow>
                                    if x < target
                                    then find_album_loop ALBUMS target (mid + 1) right printed'
                                    else find_album_loop ALBUMS target left (mid - 1) printed')))
      else (Inr None, printed))"
  by pat_completeness auto
termination
  by (relation "measure (\<lambda>(ALBUMS, target, left, right, printed). nat (right - left + 1))") auto

declare find_album_loop.simps [simp del]

text \<open>
  \<open>helpers.create_album_hash\<close> is not part of the sources at hand; the model takes it as a
  parameter.
\<close>

definition find_album ::
  "(string \<Rightarrow> string \<Rightarrow> string) \<Rightarrow> index_album list \<Rightarrow> string \<Rightarrow> string
     \<Rightarrow> (error + nat option) \<times> nat list" where
  "find_album create_album_hash ALBUMS albumtitle artist =
     find_album_loop ALBUMS (create_album_hash albumtitle artist) 0 (int (length ALBUMS) - 1) []"

text \<open>A track of \<open>api.DB_TRACKS\<close> is a dictionary; the record holds the keys read here.\<close>

record db_track =
  db_title :: string
  db_albumhash :: string

text \<open>
  Modelled from the spec: \<open>trackslib.find_track\<close> is not part of the sources at hand. By
  section 4.3 of the specification it locates the first track of the pool whose album
  identity matches, and reports that there is none.
\<close>

fun find_track :: "db_track list \<Rightarrow> string \<Rightarrow> nat option" where
  "find_track [] h = None"
| "find_track (t # ts) h =
     (if db_albumhash t = h then Some 0
      else (case find_track ts h of None \<Rightarrow> None | Some i \<Rightarrow> Some (Suc i)))"

text \<open>
  The \<open>while\<close> loop of \<open>GetAlbumTracks.find_tracks\<close> on the pool \<open>self.tracks\<close>, with the
  tracks found so far. The index that \<open>find_track\<close> reports lies inside the pool and the
  track read there is in the pool, so neither the subscript nor \<open>remove\<close> raises.
\<close>

function find_tracks_loop :: "db_track list \<Rightarrow> string \<Rightarrow> db_track list \<Rightarrow> db_track list \<times> db_track list" where
  "find_tracks_loop pool h found =
     (case find_track pool h of
        None \<Rightarrow> (found, pool)
      | Some index \<Rightarrow>
          (let track = pool ! index
           in find_tracks_loop (remove1 track pool) h (found @ [track])))"
  by pat_completeness auto
termination
proof (relation "measure (\<lambda>(pool, h, found). length pool)")
  show "wf (measure (\<lambda>(pool, h, found). length pool))"
    by simp
next
  fix pool :: "db_track list" and h :: string and found :: "db_track list"
    and index :: nat and track :: db_track
  assume found_at: "find_track pool h = Some index" and tr: "track = pool ! index"
  have "find_track p h = Some i \<Longrightarrow> i < length p" for p i
    by (induction p arbitrary: i) (auto split: if_splits option.splits)
  from this [OF found_at] have "index < length pool" .
  with tr have "track \<in> set pool"
    by simp
  then have "length (remove1 track pool) < length pool"
    by (simp add: length_remove1) (cases pool; simp)
  then show "((remove1 track pool, h, found @ [track]), (pool, h, found))
               \<in> measure (\<lambda>(pool, h, found). length pool)"
    by simp
qed

declare find_tracks_loop.simps [simp del]

text \<open>
  \<open>GetAlbumTracks(album, artist).find_tracks()\<close> on the shared pool \<open>api.DB_TRACKS\<close>. The
  constructor binds \<open>self.tracks\<close> to that very list and sorts it in place, so the loop
  removes from \<open>api.DB_TRACKS\<close>, and the last statement, \<open>api.DB_TRACKS.extend(tracks)\<close>,
  appends to the list the loop has emptied of the album. The result is the list returned
  and the pool afterwards.
\<close>

definition get_album_tracks ::
  "(string \<Rightarrow> string \<Rightarrow> string) \<Rightarrow> db_track list \<Rightarrow> string \<Rightarrow> string
     \<Rightarrow> db_track list \<times> db_track list" where
  "get_album_tracks create_album_hash DB_TRACKS album artist =
     (let h = create_album_hash album artist;
          pool = sort_key db_albumhash DB_TRACKS;
          (found, pool') = find_tracks_loop pool h []
      in (found, pool' @ found))"

section \<open>A small library for the examples\<close>

definition mk_track :: "string \<Rightarrow> string \<Rightarrow> Track" where
  "mk_track n alb = \<lparr>trackhash = n, track_albumhash = alb, duration = 100\<rparr>"

definition mk_album :: "string \<Rightarrow> string \<Rightarrow> Album" where
  "mk_album hsh artist =
     \<lparr>albumhash = hsh, title = hsh, albumartists_hashes = {artist}, date = 0,
      is_single = False, is_EP = False, is_compilation = False\<rparr>"

definition mk_artist :: "string \<Rightarrow> Artist" where
  "mk_artist n =
     \<lparr>name = n, trackcount = 0, albumcount = 0, artist_duration = 0, is_favorite = False\<rparr>"

text \<open>
  Artist \<open>x\<close> has two albums of two tracks, artist \<open>w\<close> one track on album \<open>abc\<close> and a
  second album \<open>b\<close> known to the album store only, artist \<open>y\<close> four tracks and no album
  credit; nobody else is known. The analysis passes change nothing, and a set iterates
  its elements in the order of their last insertion.
\<close>

definition library :: Stores where
  "library =
     \<lparr>get_album_by_hash =
        (\<lambda>h. if h = ''abc'' then Some (mk_album ''abc'' ''w'')
              else if h = ''def'' then Some (mk_album ''def'' ''x'')
              else if h = ''ghi'' then Some (mk_album ''ghi'' ''x'')
              else None),
      store_albums_by_artisthash = (\<lambda>h. if h = ''w'' then [mk_album ''b'' ''w''] else []),
      count_albums_by_artisthash = (\<lambda>h. if h = ''x'' \<or> h = ''w'' then 2 else 0),
      get_tracks_by_artist =
        (\<lambda>h. if h = ''x'' then [mk_track ''t1'' ''def'', mk_track ''t2'' ''ghi'']
              else if h = ''w'' then [mk_track ''t3'' ''abc'']
              else if h = ''y'' then [mk_track ''s1'' ''s'', mk_track ''s2'' ''s'',
                                      mk_track ''s3'' ''s'', mk_track ''s4'' ''s'']
              else []),
      get_tracks_by_albumhash = (\<lambda>h. []),
      get_artist_by_hash =
        (\<lambda>h. if h = ''x'' \<or> h = ''w'' \<or> h = ''y'' then Some (mk_artist h) else None),
      check_is_favorite = (\<lambda>h. False),
      remove_duplicates = remdups,
      check_type = (\<lambda>a. a),
      get_date_from_tracks = (\<lambda>a ts. a),
      check_is_single = (\<lambda>a ts. a),
      set_iteration = remdups\<rparr>"

text \<open>The three albums of the scenario in section 8 of the specification.\<close>

definition album_A :: Album where
  "album_A = mk_album ''A'' ''x''"

definition album_B :: Album where
  "album_B = (mk_album ''B'' ''x'')\<lparr>is_single := True\<rparr>"

definition album_C :: Album where
  "album_C = (mk_album ''C'' ''x'')\<lparr>is_compilation := True\<rparr>"

text \<open>An album that the analysis has flagged both as a single and as an EP.\<close>

definition album_single_EP :: Album where
  "album_single_EP = (mk_album ''D'' ''x'')\<lparr>is_single := True, is_EP := True\<rparr>"

text \<open>The cache after a request for \<open>x\<close> and then one for \<open>y\<close>.\<close>

definition cache_after_x_then_y :: ArtistsCache where
  "cache_after_x_then_y = add_entry (add_entry artists_init ''x'' [] []) ''y'' [] []"


text \<open>A cache whose only entry belongs to \<open>x\<close> and has been type-checked.\<close>

definition cache_of_x_checked :: ArtistsCache where
  "cache_of_x_checked = [(CacheEntry_init ''x'' [] [])\<lparr>type_checked := True\<rparr>]"

text \<open>A stand-in for the album hash, and a pool of three tracks.\<close>

definition title_then_artist :: "string \<Rightarrow> string \<Rightarrow> string" where
  "title_then_artist t a = t @ a"

definition track_1 :: db_track where
  "track_1 = \<lparr>db_title = ''one'', db_albumhash = ''ab''\<rparr>"

definition track_2 :: db_track where
  "track_2 = \<lparr>db_title = ''two'', db_albumhash = ''aa''\<rparr>"

definition track_3 :: db_track where
  "track_3 = \<lparr>db_title = ''three'', db_albumhash = ''ab''\<rparr>"

section \<open>Properties of the cache\<close>

lemma add_entry_single: "add_entry c h hs ts = [CacheEntry_init h hs ts]"
  by (simp add: add_entry_def deque_append_def artists_maxlen_def)

lemma add_entries_trace_bounded:
  "length c \<le> 1 \<Longrightarrow> s \<in> set (add_entries_trace c calls) \<Longrightarrow> length s \<le> 1"
proof (induction calls arbitrary: c)
  case Nil
  then show ?case by simp
next
  case (Cons call calls)
  obtain h hs ts where call: "call = (h, hs, ts)"
    by (cases call)
  from Cons.prems have "s = c \<or> s \<in> set (add_entries_trace (add_entry c h hs ts) calls)"
    by (simp add: call)
  then show ?case
  proof
    assume "s = c"
    with Cons.prems show ?thesis by simp
  next
    assume "s \<in> set (add_entries_trace (add_entry c h hs ts) calls)"
    moreover have "length (add_entry c h hs ts) \<le> 1"
      by (simp add: add_entry_single)
    ultimately show ?thesis
      by (rule Cons.IH [rotated])
  qed
qed

lemma add_entries_last:
  "calls \<noteq> [] \<Longrightarrow>
   add_entries c calls = [case last calls of (h, hs, ts) \<Rightarrow> CacheEntry_init h hs ts]"
proof (induction calls arbitrary: c)
  case Nil
  then show ?case by simp
next
  case (Cons call calls)
  obtain h hs ts where call: "call = (h, hs, ts)"
    by (cases call)
  show ?case
  proof (cases "calls = []")
    case True
    then show ?thesis by (simp add: call add_entry_single)
  next
    case False
    with Cons.IH [of "add_entry c h hs ts"] show ?thesis
      by (simp add: call)
  qed
qed

text \<open>
  C9. Whatever calls of \<open>add_entry\<close> are made on a cache of at most one entry, every cache
  state passed through holds at most one entry, and after the last call the cache holds
  exactly one entry: the fresh entry of the last call, under the artist hash of that call.
\<close>

theorem cache_keeps_only_latest_entry:
  assumes "length c \<le> 1" and "calls \<noteq> []"
  shows "(\<forall>s \<in> set (add_entries_trace c calls). length s \<le> 1)
       \<and> add_entries c calls = [case last calls of (h, hs, ts) \<Rightarrow> CacheEntry_init h hs ts]
       \<and> map artisthash (add_entries c calls) = [fst (last calls)]"
proof -
  have "\<forall>s \<in> set (add_entries_trace c calls). length s \<le> 1"
    using assms(1) add_entries_trace_bounded by blast
  moreover have fin:
    "add_entries c calls = [case last calls of (h, hs, ts) \<Rightarrow> CacheEntry_init h hs ts]"
    using assms(2) by (rule add_entries_last)
  moreover have "map artisthash (add_entries c calls) = [fst (last calls)]"
    by (simp add: fin CacheEntry_init_def split: prod.splits)
  ultimately show ?thesis by blast
qed

theorem cache_keeps_only_latest_entry_witness:
  "length artists_init \<le> 1
   \<and> [(''a'', [''h1''], []), (''b'', [''h2''], []), (''c'', [], [])] \<noteq> []
   \<and> map length (add_entries_trace artists_init
          [(''a'', [''h1''], []), (''b'', [''h2''], []), (''c'', [], [])]) = [0, 1, 1, 1]
   \<and> add_entries artists_init [(''a'', [''h1''], []), (''b'', [''h2''], []), (''c'', [], [])]
       = [CacheEntry_init ''c'' [] []]
   \<and> map artisthash (add_entries artists_init
          [(''a'', [''h1''], []), (''b'', [''h2''], []), (''c'', [], [])]) = [''c'']"
  using cache_keeps_only_latest_entry
    [of artists_init "[(''a'', [''h1''], []), (''b'', [''h2''], []), (''c'', [], [])]"]
  by (simp add: artists_init_def add_entry_single CacheEntry_init_def)

section \<open>Properties of the classification\<close>

lemma remove_each_filter:
  "\<forall>y \<in> set ys. \<not> P y \<Longrightarrow>
   remove_each (filter P xs) (ys @ xs) = Inr (ys @ filter (\<lambda>x. \<not> P x) xs)"
proof (induction xs arbitrary: ys)
  case Nil
  then show ?case by simp
next
  case (Cons x xs)
  show ?case
  proof (cases "P x")
    case True
    with Cons.prems have "x \<notin> set ys" by blast
    then have "py_remove x (ys @ x # xs) = Inr (ys @ xs)"
      by (simp add: py_remove_def remove1_append)
    with True Cons.IH [OF Cons.prems] show ?thesis by simp
  next
    case False
    with Cons.prems have "\<forall>y \<in> set (ys @ [x]). \<not> P y" by simp
    from Cons.IH [OF this] False show ?thesis by simp
  qed
qed

lemma classify_spec_buckets: "classify h xs = Inr (spec_buckets h xs)"
proof -
  have "remove_each (filter is_compilation ys) ys = Inr (filter (\<lambda>a. \<not> is_compilation a) ys)"
    for ys :: "Album list"
    using remove_each_filter [of "[]" is_compilation ys] by simp
  moreover have "remove_EPs_and_singles (filter (\<lambda>a. h \<in> albumartists_hashes a) xs)
      = spec_candidates h xs"
    by (simp add: remove_EPs_and_singles_def spec_candidates_def conj_commute conj_left_commute)
  moreover have "remove_EPs_and_singles (filter (\<lambda>a. h \<notin> albumartists_hashes a) xs)
      = filter (\<lambda>a. h \<notin> albumartists_hashes a \<and> \<not> is_EP a \<and> \<not> is_single a) xs"
    by (simp add: remove_EPs_and_singles_def conj_commute conj_left_commute)
  ultimately show ?thesis
    by (simp add: classify_def spec_buckets_def Let_def)
qed

text \<open>
  C2. For every artist hash and every album list, the classification of
  \<open>get_artist_albums\<close> raises nothing, and its five lists are the five lists of the
  reference definition.
\<close>

theorem classify_is_reference_partition:
  "classify h all_albums = Inr (spec_buckets h all_albums)"
  by (rule classify_spec_buckets)

theorem classify_is_reference_partition_witness:
  "classify ''x'' [album_A, album_B, album_C]
     = Inr \<lparr>b_albums = [album_A], b_singles = [album_B], b_eps = [],
            b_appearances = [], b_compilations = [album_C]\<rparr>"
  using classify_is_reference_partition [of "''x''" "[album_A, album_B, album_C]"]
  by (simp add: spec_buckets_def spec_candidates_def album_A_def album_B_def album_C_def
      mk_album_def)

lemma set_py_slice_to: "set (py_slice_to xs n) \<subseteq> set xs"
  by (auto simp: py_slice_to_def dest: in_set_takeD)

lemma py_slice_to_all: "int (length xs) \<le> n \<Longrightarrow> py_slice_to xs n = xs"
  by (simp add: py_slice_to_def)

lemma answer_buckets:
  assumes "albums_answer S h limit return_all xs = Inr resp"
  shows "\<exists>n. r_albums resp = py_slice_to (b_albums (spec_buckets h xs)) n
           \<and> r_singles resp = py_slice_to (b_singles (spec_buckets h xs)) n
           \<and> r_eps resp = py_slice_to (b_eps (spec_buckets h xs)) n
           \<and> r_appearances resp = py_slice_to (b_appearances (spec_buckets h xs)) n
           \<and> r_compilations resp = py_slice_to (b_compilations (spec_buckets h xs)) n
           \<and> n = (if return_all \<noteq> None then int (length xs) else limit)"
  using assms
  by (auto simp: albums_answer_def classify_spec_buckets Let_def split: option.splits)

text \<open>
  C3, as amended. The lists \<open>albums\<close> and \<open>compilations\<close> are disjoint from each other and
  from \<open>singles\<close> and \<open>eps\<close>, and no single or EP is in \<open>albums\<close>, \<open>compilations\<close> or
  \<open>appearances\<close>; \<open>singles\<close> and \<open>eps\<close> share exactly the albums flagged both as single and
  as EP. The lists of an answer are initial segments of these, so the same disjointness
  holds of what \<open>get_artist_albums\<close> returns.
\<close>

theorem buckets_disjoint_up_to_single_EPs:
  "(\<exists>b. classify h xs = Inr b
    \<and> set (b_albums b) \<inter> set (b_singles b) = {}
    \<and> set (b_albums b) \<inter> set (b_eps b) = {}
    \<and> set (b_albums b) \<inter> set (b_compilations b) = {}
    \<and> set (b_compilations b) \<inter> set (b_singles b) = {}
    \<and> set (b_compilations b) \<inter> set (b_eps b) = {}
    \<and> set (b_singles b) \<inter> set (b_eps b) = {a \<in> set xs. is_single a \<and> is_EP a}
    \<and> (\<forall>a \<in> set (b_albums b) \<union> set (b_compilations b) \<union> set (b_appearances b).
          \<not> is_single a \<and> \<not> is_EP a))
   \<and> (albums_answer S h limit return_all xs = Inr resp \<longrightarrow>
      set (r_albums resp) \<inter> set (r_singles resp) = {}
    \<and> set (r_albums resp) \<inter> set (r_eps resp) = {}
    \<and> set (r_albums resp) \<inter> set (r_compilations resp) = {}
    \<and> set (r_compilations resp) \<inter> set (r_singles resp) = {}
    \<and> set (r_compilations resp) \<inter> set (r_eps resp) = {}
    \<and> set (r_singles resp) \<inter> set (r_eps resp) \<subseteq> {a \<in> set xs. is_single a \<and> is_EP a}
    \<and> (\<forall>a \<in> set (r_albums resp) \<union> set (r_compilations resp) \<union> set (r_appearances resp).
          \<not> is_single a \<and> \<not> is_EP a))"
proof -
  have full: "\<exists>b. classify h xs = Inr b
    \<and> set (b_albums b) \<inter> set (b_singles b) = {}
    \<and> set (b_albums b) \<inter> set (b_eps b) = {}
    \<and> set (b_albums b) \<inter> set (b_compilations b) = {}
    \<and> set (b_compilations b) \<inter> set (b_singles b) = {}
    \<and> set (b_compilations b) \<inter> set (b_eps b) = {}
    \<and> set (b_singles b) \<inter> set (b_eps b) = {a \<in> set xs. is_single a \<and> is_EP a}
    \<and> (\<forall>a \<in> set (b_albums b) \<union> set (b_compilations b) \<union> set (b_appearances b).
          \<not> is_single a \<and> \<not> is_EP a)"
    by (auto simp: classify_spec_buckets spec_buckets_def spec_candidates_def)
  have sliced: "albums_answer S h limit return_all xs = Inr resp \<longrightarrow>
      set (r_albums resp) \<inter> set (r_singles resp) = {}
    \<and> set (r_albums resp) \<inter> set (r_eps resp) = {}
    \<and> set (r_albums resp) \<inter> set (r_compilations resp) = {}
    \<and> set (r_compilations resp) \<inter> set (r_singles resp) = {}
    \<and> set (r_compilations resp) \<inter> set (r_eps resp) = {}
    \<and> set (r_singles resp) \<inter> set (r_eps resp) \<subseteq> {a \<in> set xs. is_single a \<and> is_EP a}
    \<and> (\<forall>a \<in> set (r_albums resp) \<union> set (r_compilations resp) \<union> set (r_appearances resp).
          \<not> is_single a \<and> \<not> is_EP a)"
  proof
    assume "albums_answer S h limit return_all xs = Inr resp"
    from answer_buckets [OF this] obtain n where
      a: "set (r_albums resp) \<subseteq> set (b_albums (spec_buckets h xs))" and
      s: "set (r_singles resp) \<subseteq> set (b_singles (spec_buckets h xs))" and
      e: "set (r_eps resp) \<subseteq> set (b_eps (spec_buckets h xs))" and
      p: "set (r_appearances resp) \<subseteq> set (b_appearances (spec_buckets h xs))" and
      c: "set (r_compilations resp) \<subseteq> set (b_compilations (spec_buckets h xs))"
      by (metis set_py_slice_to)
    show "set (r_albums resp) \<inter> set (r_singles resp) = {}
    \<and> set (r_albums resp) \<inter> set (r_eps resp) = {}
    \<and> set (r_albums resp) \<inter> set (r_compilations resp) = {}
    \<and> set (r_compilations resp) \<inter> set (r_singles resp) = {}
    \<and> set (r_compilations resp) \<inter> set (r_eps resp) = {}
    \<and> set (r_singles resp) \<inter> set (r_eps resp) \<subseteq> {a \<in> set xs. is_single a \<and> is_EP a}
    \<and> (\<forall>a \<in> set (r_albums resp) \<union> set (r_compilations resp) \<union> set (r_appearances resp).
          \<not> is_single a \<and> \<not> is_EP a)"
      using a s e p c
      by (auto simp: spec_buckets_def spec_candidates_def)
  qed
  from full sliced show ?thesis by blast
qed

theorem buckets_disjoint_up_to_single_EPs_witness:
  "classify ''x'' [album_A, album_B, album_C, album_single_EP]
     = Inr \<lparr>b_albums = [album_A], b_singles = [album_B, album_single_EP],
            b_eps = [album_single_EP], b_appearances = [], b_compilations = [album_C]\<rparr>
   \<and> set [album_B, album_single_EP] \<inter> set [album_single_EP] = {album_single_EP}
   \<and> albums_answer library ''x'' 6 None [album_A, album_B, album_C, album_single_EP]
     = Inr \<lparr>artistname = ''x'', r_albums = [album_A], r_singles = [album_B, album_single_EP],
            r_eps = [album_single_EP], r_appearances = [], r_compilations = [album_C]\<rparr>
   \<and> set [album_A] \<inter> set [album_B, album_single_EP] = {}
   \<and> set [album_A] \<inter> set [album_C] = {}"
proof -
  have cl: "classify ''x'' [album_A, album_B, album_C, album_single_EP]
     = Inr \<lparr>b_albums = [album_A], b_singles = [album_B, album_single_EP],
            b_eps = [album_single_EP], b_appearances = [], b_compilations = [album_C]\<rparr>"
    by (simp add: classify_spec_buckets spec_buckets_def spec_candidates_def
        album_A_def album_B_def album_C_def album_single_EP_def mk_album_def)
  have run: "albums_answer library ''x'' 6 None [album_A, album_B, album_C, album_single_EP]
     = Inr \<lparr>artistname = ''x'', r_albums = [album_A], r_singles = [album_B, album_single_EP],
            r_eps = [album_single_EP], r_appearances = [], r_compilations = [album_C]\<rparr>"
    by (simp add: albums_answer_def cl library_def mk_artist_def py_slice_to_def)
  have both: "set [album_B, album_single_EP] \<inter> set [album_single_EP] = {album_single_EP}"
    by simp
  have regular: "set [album_A] \<inter> set [album_B, album_single_EP] = {}"
    "set [album_A] \<inter> set [album_C] = {}"
    by (simp_all add: album_A_def album_B_def album_C_def album_single_EP_def mk_album_def)
  from buckets_disjoint_up_to_single_EPs
    [of "''x''" "[album_A, album_B, album_C, album_single_EP]" library 6 None
      "\<lparr>artistname = ''x'', r_albums = [album_A], r_singles = [album_B, album_single_EP],
            r_eps = [album_single_EP], r_appearances = [], r_compilations = [album_C]\<rparr>"]
  show ?thesis
    by (intro conjI cl run both regular)
qed

text \<open>
  C3, as stated, fails: an album flagged both as single and as EP is returned in
  \<open>singles\<close> and in \<open>eps\<close>.
\<close>

theorem single_EP_in_two_buckets:
  "album_single_EP \<in> set (b_singles (projr (classify ''x'' [album_single_EP])))
   \<and> album_single_EP \<in> set (b_eps (projr (classify ''x'' [album_single_EP])))
   \<and> albums_answer library ''x'' 6 None [album_single_EP]
     = Inr \<lparr>artistname = ''x'', r_albums = [], r_singles = [album_single_EP],
            r_eps = [album_single_EP], r_appearances = [], r_compilations = []\<rparr>"
  by (simp add: albums_answer_def classify_spec_buckets spec_buckets_def spec_candidates_def
      album_single_EP_def mk_album_def library_def mk_artist_def py_slice_to_def)

section \<open>Properties of the handlers\<close>

lemma albums_from_cache_answer:
  assumes "albums_from_cache S c h limit return_all = (Inr resp, c')"
  shows "albums_answer S h limit return_all (fst (get_albums_by_artisthash c' h)) = Inr resp"
  using assms
  by (auto simp: albums_from_cache_def Let_def split: prod.splits sum.splits if_splits)

lemma get_artist_albums_answer:
  assumes "get_artist_albums S c h l return_all = (Inr resp, c')"
  shows "\<exists>limit. read_limit l = Inr limit
           \<and> albums_answer S h limit return_all (fst (get_albums_by_artisthash c' h)) = Inr resp"
  using assms
  by (auto simp: get_artist_albums_def Let_def albums_from_cache_answer split: sum.splits)

lemma spec_bucket_lengths:
  "length (b_albums (spec_buckets h xs)) \<le> length xs"
  "length (b_singles (spec_buckets h xs)) \<le> length xs"
  "length (b_eps (spec_buckets h xs)) \<le> length xs"
  "length (b_appearances (spec_buckets h xs)) \<le> length xs"
  "length (b_compilations (spec_buckets h xs)) \<le> length xs"
proof -
  have "length (filter P (filter Q xs)) \<le> length xs" for P Q :: "Album \<Rightarrow> bool"
    by (rule order_trans [OF length_filter_le length_filter_le])
  then show
    "length (b_albums (spec_buckets h xs)) \<le> length xs"
    "length (b_singles (spec_buckets h xs)) \<le> length xs"
    "length (b_eps (spec_buckets h xs)) \<le> length xs"
    "length (b_appearances (spec_buckets h xs)) \<le> length xs"
    "length (b_compilations (spec_buckets h xs)) \<le> length xs"
    by (simp_all add: spec_buckets_def spec_candidates_def)
qed

text \<open>
  C8. When the \<open>all\<close> argument is present, the answer is the one for a limit equal to the
  number of albums fetched, whatever the \<open>limit\<close> argument; and whenever
  \<open>get_artist_albums\<close> answers such a request, each of the five lists of the answer is
  the whole list computed from the albums of the entry.
\<close>

theorem all_flag_returns_whole_buckets:
  assumes "get_artist_albums S c h l (Some flag) = (Inr resp, c')"
  shows "albums_answer S h limit (Some flag) xs = albums_answer S h (int (length xs)) None xs
       \<and> classify h (fst (get_albums_by_artisthash c' h))
           = Inr \<lparr>b_albums = r_albums resp, b_singles = r_singles resp, b_eps = r_eps resp,
                  b_appearances = r_appearances resp, b_compilations = r_compilations resp\<rparr>"
proof -
  define all_albums where "all_albums = fst (get_albums_by_artisthash c' h)"
  from get_artist_albums_answer [OF assms] obtain limit0 where
    "albums_answer S h limit0 (Some flag) all_albums = Inr resp"
    by (auto simp: all_albums_def)
  from answer_buckets [OF this] have
    "r_albums resp = py_slice_to (b_albums (spec_buckets h all_albums)) (int (length all_albums))"
    "r_singles resp = py_slice_to (b_singles (spec_buckets h all_albums)) (int (length all_albums))"
    "r_eps resp = py_slice_to (b_eps (spec_buckets h all_albums)) (int (length all_albums))"
    "r_appearances resp
       = py_slice_to (b_appearances (spec_buckets h all_albums)) (int (length all_albums))"
    "r_compilations resp
       = py_slice_to (b_compilations (spec_buckets h all_albums)) (int (length all_albums))"
    by simp_all
  then have whole:
    "r_albums resp = b_albums (spec_buckets h all_albums)"
    "r_singles resp = b_singles (spec_buckets h all_albums)"
    "r_eps resp = b_eps (spec_buckets h all_albums)"
    "r_appearances resp = b_appearances (spec_buckets h all_albums)"
    "r_compilations resp = b_compilations (spec_buckets h all_albums)"
    by (simp_all add: py_slice_to_all spec_bucket_lengths)
  have "albums_answer S h limit (Some flag) xs = albums_answer S h (int (length xs)) None xs"
    by (simp add: albums_answer_def)
  with whole show ?thesis
    by (simp add: all_albums_def classify_spec_buckets)
qed

lemmas run_defs =
  get_artist_albums_def library_def artists_init_def read_limit_def add_albums_to_cache_def
  mk_track_def mk_album_def mk_artist_def add_entry_def deque_append_def artists_maxlen_def
  CacheEntry_init_def get_albums_def find_entry_def py_index_def merge_store_albums_def
  albums_from_cache_def get_albums_by_artisthash_def process_album_type_def analyse_album_def
  albums_answer_def classify_spec_buckets spec_buckets_def spec_candidates_def py_slice_to_def
  get_tracks_def get_artist_def load_tracks_def artist_summary_def Let_def

theorem all_flag_returns_whole_buckets_witness:
  "get_artist_albums library artists_init ''x'' (Number 1) (Some ''1'')
     = (Inr \<lparr>artistname = ''x'', r_albums = [mk_album ''def'' ''x'', mk_album ''ghi'' ''x''],
             r_singles = [], r_eps = [], r_appearances = [], r_compilations = []\<rparr>,
        [\<lparr>albums = [mk_album ''def'' ''x'', mk_album ''ghi'' ''x''], tracks = [],
          artisthash = ''x'', albumhashes = [''def'', ''ghi''], type_checked = True,
          albums_fetched = True\<rparr>])
   \<and> classify ''x'' [mk_album ''def'' ''x'', mk_album ''ghi'' ''x'']
     = Inr \<lparr>b_albums = [mk_album ''def'' ''x'', mk_album ''ghi'' ''x''], b_singles = [],
            b_eps = [], b_appearances = [], b_compilations = []\<rparr>
   \<and> fst (get_artist_albums library artists_init ''x'' (Number 1) None)
     = Inr \<lparr>artistname = ''x'', r_albums = [mk_album ''def'' ''x''],
             r_singles = [], r_eps = [], r_appearances = [], r_compilations = []\<rparr>"
proof -
  have run: "get_artist_albums library artists_init ''x'' (Number 1) (Some ''1'')
     = (Inr \<lparr>artistname = ''x'', r_albums = [mk_album ''def'' ''x'', mk_album ''ghi'' ''x''],
             r_singles = [], r_eps = [], r_appearances = [], r_compilations = []\<rparr>,
        [\<lparr>albums = [mk_album ''def'' ''x'', mk_album ''ghi'' ''x''], tracks = [],
          artisthash = ''x'', albumhashes = [''def'', ''ghi''], type_checked = True,
          albums_fetched = True\<rparr>])"
    by (simp add: run_defs)
  have limited: "fst (get_artist_albums library artists_init ''x'' (Number 1) None)
     = Inr \<lparr>artistname = ''x'', r_albums = [mk_album ''def'' ''x''],
             r_singles = [], r_eps = [], r_appearances = [], r_compilations = []\<rparr>"
    by (simp add: run_defs)
  from all_flag_returns_whole_buckets [OF run] run limited show ?thesis
    by (simp add: get_albums_by_artisthash_def)
qed


lemma tracks_cached_entry:
  "tracks_cached c h \<Longrightarrow> filter (\<lambda>a. artisthash a = h) c \<noteq> []"
  by (induction c) (auto split: if_splits)

lemma find_entry_found:
  "filter (\<lambda>a. artisthash a = h) c \<noteq> [] \<Longrightarrow> \<exists>entry. find_entry c h = Inr entry"
  by (simp add: find_entry_def py_index_def)

lemma load_tracks_total: "\<exists>ts c'. load_tracks S c h = Inr (ts, c')"
proof (cases "tracks_cached c h")
  case True
  from find_entry_found [OF tracks_cached_entry [OF True]] obtain entry
    where "find_entry c h = Inr entry" ..
  with True show ?thesis
    by (simp add: load_tracks_def get_tracks_def)
next
  case False
  then show ?thesis
    by (simp add: load_tracks_def Let_def)
qed



section \<open>Calls that find no entry\<close>

lemma find_entry_missing:
  "\<forall>e \<in> set c. artisthash e \<noteq> h \<Longrightarrow> find_entry c h = Inl IndexError"
proof -
  assume "\<forall>e \<in> set c. artisthash e \<noteq> h"
  then have "filter (\<lambda>a. artisthash a = h) c = []"
    by (simp add: filter_empty_conv)
  then show ?thesis
    by (simp add: find_entry_def py_index_def)
qed

lemma stage_calls_without_entry:
  assumes "\<forall>e \<in> set c. artisthash e \<noteq> h"
  shows "get_tracks c h = Inl IndexError"
    and "get_albums S c h = Inl IndexError"
    and "process_album_type S c h = Inl IndexError"
  using find_entry_missing [OF assms]
  by (simp_all add: get_tracks_def get_albums_def process_album_type_def)

lemma enumerate_lookup_missing:
  "\<forall>e \<in> set c. artisthash e \<noteq> h \<Longrightarrow> enumerate_lookup i c h = ([], - 1)"
  by (induction c arbitrary: i) auto

lemma py_index_last: "c \<noteq> [] \<Longrightarrow> py_index c (- 1) = Inr (last c)"
proof -
  assume ne: "c \<noteq> []"
  then have pos: "0 < length c" by simp
  then have "nat (int (length c) + - 1) = length c - 1"
    by linarith
  with ne pos show ?thesis
    by (simp add: py_index_def last_conv_nth Suc_le_eq)
qed

text \<open>
  C10. In a cache without an entry for the artist, \<open>get_albums_by_artisthash\<close> returns
  the empty list and the index \<open>-1\<close>; reading \<open>artists[index]\<close> then raises
  \<open>IndexError\<close> on the empty deque and yields the last entry otherwise, an entry of
  another artist. The rest of \<open>get_artist_albums\<close> follows that entry's \<open>type_checked\<close>
  flag: set, it answers from the empty list; not set, it calls \<open>process_album_type\<close>,
  which finds no entry.
\<close>

theorem lookup_without_entry_reads_last_entry:
  assumes "\<forall>e \<in> set c. artisthash e \<noteq> h"
  shows "get_albums_by_artisthash c h = ([], - 1)
       \<and> py_index c (snd (get_albums_by_artisthash c h))
           = (if c = [] then Inl IndexError else Inr (last c))
       \<and> albums_from_cache S c h limit return_all
           = (if c = [] then (Inl IndexError, c)
              else if type_checked (last c) then (albums_answer S h limit return_all [], c)
              else (Inl IndexError, c))"
proof -
  have lookup: "get_albums_by_artisthash c h = ([], - 1)"
    using assms by (simp add: get_albums_by_artisthash_def enumerate_lookup_missing)
  have read: "py_index c (- 1) = (if c = [] then Inl IndexError else Inr (last c))"
    by (simp add: py_index_last) (simp add: py_index_def)
  have "albums_from_cache S c h limit return_all
           = (if c = [] then (Inl IndexError, c)
              else if type_checked (last c) then (albums_answer S h limit return_all [], c)
              else (Inl IndexError, c))"
    using stage_calls_without_entry(3) [OF assms]
    by (simp add: albums_from_cache_def lookup read)
  with lookup read show ?thesis by simp
qed

theorem lookup_without_entry_reads_last_entry_witness:
  "artisthash (hd cache_of_x_checked) \<noteq> ''w''
   \<and> length cache_of_x_checked = 1
   \<and> get_albums_by_artisthash cache_of_x_checked ''w'' = ([], - 1)
   \<and> py_index cache_of_x_checked (- 1) = Inr ((CacheEntry_init ''x'' [] [])\<lparr>type_checked := True\<rparr>)
   \<and> albums_from_cache library cache_of_x_checked ''w'' 6 None
     = (Inr \<lparr>artistname = ''w'', r_albums = [], r_singles = [], r_eps = [],
             r_appearances = [], r_compilations = []\<rparr>, cache_of_x_checked)
   \<and> albums_from_cache library artists_init ''w'' 6 None = (Inl IndexError, artists_init)
   \<and> albums_from_cache library cache_after_x_then_y ''w'' 6 None
     = (Inl IndexError, cache_after_x_then_y)"
  using lookup_without_entry_reads_last_entry [of cache_of_x_checked "''w''" library 6 None]
    lookup_without_entry_reads_last_entry [of artists_init "''w''" library 6 None]
    lookup_without_entry_reads_last_entry [of cache_after_x_then_y "''w''" library 6 None]
  by (simp add: cache_of_x_checked_def cache_after_x_then_y_def run_defs)

text \<open>
  In \<open>get_artist_albums\<close> itself, run from start to end, the lookup is reached only with
  an entry for the artist in the cache: without one, \<open>albums_fetched\<close> returns \<open>None\<close> and
  \<open>get_albums\<close> raises first.
\<close>

lemma albums_fetched_of_entry:
  "albums_fetched_of c h = Some b \<Longrightarrow> \<exists>e \<in> set c. artisthash e = h"
  by (induction c) (auto split: if_splits)

lemma update_entry_hashes:
  "(\<And>e. artisthash (f e) = artisthash e) \<Longrightarrow>
   map artisthash (update_entry h f c) = map artisthash c"
  by (induction c) simp_all

lemma lookup_reached_with_entry:
  assumes "(if albums_fetched_of c1 h \<noteq> Some True then get_albums S c1 h else Inr c1) = Inr c2"
  shows "\<exists>e \<in> set c2. artisthash e = h"
proof (cases "albums_fetched_of c1 h = Some True")
  case True
  with assms have "c2 = c1" by simp
  with albums_fetched_of_entry [OF True] show ?thesis by simp
next
  case False
  with assms have run: "get_albums S c1 h = Inr c2" by simp
  have "\<not> (\<forall>e \<in> set c1. artisthash e \<noteq> h)"
    using stage_calls_without_entry(2) [of c1 h S] run by auto
  then have "h \<in> set (map artisthash c1)"
    by auto
  moreover from run have "map artisthash c2 = map artisthash c1"
    by (auto simp: get_albums_def Let_def update_entry_hashes split: sum.splits)
  ultimately have "h \<in> set (map artisthash c2)"
    by simp
  then show ?thesis by auto
qed

text \<open>
  C4. The three stage calls do not handle a missing entry. After a request for another
  artist has replaced the entry of \<open>x\<close>, each of them raises \<open>IndexError\<close> for \<open>x\<close>, and a
  request for the albums of an artist without tracks ends in the same \<open>IndexError\<close>,
  raised by \<open>get_albums\<close>.
\<close>

theorem stage_calls_raise_IndexError:
  "get_tracks cache_after_x_then_y ''x'' = Inl IndexError
   \<and> get_albums library cache_after_x_then_y ''x'' = Inl IndexError
   \<and> process_album_type library cache_after_x_then_y ''x'' = Inl IndexError
   \<and> get_artist_albums library artists_init ''z'' Missing None = (Inl IndexError, artists_init)"
  by (simp add: cache_after_x_then_y_def run_defs)

section \<open>Merging the albums of the store\<close>

lemma merge_store_albums_filter:
  "merge_store_albums resolved store_albums
     = resolved @ filter (\<lambda>a. \<not> str_in (albumhash a) (join ''-'' (map albumhash resolved)))
         store_albums"
proof -
  have "fold (\<lambda>album acc. if \<not> str_in (albumhash album) s then acc @ [album] else acc) ys acc
      = acc @ filter (\<lambda>a. \<not> str_in (albumhash a) s) ys" for s ys acc
    by (induction ys arbitrary: acc) simp_all
  then show ?thesis
    by (simp add: merge_store_albums_def)
qed

text \<open>
  C1. The test of \<open>get_albums\<close> is a substring test on the joined hashes. The album with
  hash \<open>b\<close> is not among the albums resolved for \<open>w\<close>, whose only hash is \<open>abc\<close>, and
  \<open>get_albums\<close> still does not append it.
\<close>

theorem get_albums_skips_album_with_substring_hash:
  "albumhash (mk_album ''b'' ''w'') \<notin> set (map albumhash [mk_album ''abc'' ''w''])
   \<and> merge_store_albums [mk_album ''abc'' ''w''] [mk_album ''b'' ''w''] = [mk_album ''abc'' ''w'']
   \<and> store_albums_by_artisthash library ''w'' = [mk_album ''b'' ''w'']
   \<and> get_albums library (add_entry artists_init ''w'' [''abc''] []) ''w''
     = Inr [\<lparr>albums = [mk_album ''abc'' ''w''], tracks = [], artisthash = ''w'',
             albumhashes = [''abc''], type_checked = False, albums_fetched = True\<rparr>]"
  by (simp add: run_defs)

section \<open>When the substring test is a membership test\<close>

text \<open>
  For album hashes of one common length, not empty and without the character \<open>-\<close>, an
  occurrence in the joined hashes is one of the hashes, and the test of \<open>get_albums\<close>
  is the test for membership.
\<close>

lemma starts_with_iff: "starts_with x s \<longleftrightarrow> (\<exists>q. s = x @ q)"
  by (induction x s rule: starts_with.induct) auto

lemma str_in_iff: "str_in x s \<longleftrightarrow> (\<exists>p q. s = p @ x @ q)"
proof (induction s)
  case Nil
  then show ?case by simp
next
  case (Cons c cs)
  have "(\<exists>p q. c # cs = p @ x @ q) \<longleftrightarrow> (\<exists>q. c # cs = x @ q) \<or> (\<exists>p q. cs = p @ x @ q)"
  proof
    assume "\<exists>p q. c # cs = p @ x @ q"
    then obtain p q where pq: "c # cs = p @ x @ q" by blast
    show "(\<exists>q. c # cs = x @ q) \<or> (\<exists>p q. cs = p @ x @ q)"
    proof (cases p)
      case Nil
      with pq show ?thesis by auto
    next
      case (Cons d p')
      with pq have "cs = p' @ x @ q" by simp
      then show ?thesis by blast
    qed
  next
    assume "(\<exists>q. c # cs = x @ q) \<or> (\<exists>p q. cs = p @ x @ q)"
    then show "\<exists>p q. c # cs = p @ x @ q"
    proof
      assume "\<exists>q. c # cs = x @ q"
      then obtain q where "c # cs = [] @ x @ q" by auto
      then show ?thesis by blast
    next
      assume "\<exists>p q. cs = p @ x @ q"
      then obtain p q where "c # cs = (c # p) @ x @ q" by auto
      then show ?thesis by blast
    qed
  qed
  with Cons.IH show ?case
    by (simp add: starts_with_iff)
qed

lemma join_Cons:
  "join sep (h # hs) = (if hs = [] then h else h @ sep @ join sep hs)"
  by (cases hs) simp_all

lemma member_occurs_in_join:
  "y \<in> set hs \<Longrightarrow> \<exists>p q. join sep hs = p @ y @ q"
proof (induction hs)
  case Nil
  then show ?case by simp
next
  case (Cons h hs)
  show ?case
  proof (cases "y = h")
    case True
    have "join sep (h # hs) = [] @ h @ (if hs = [] then [] else sep @ join sep hs)"
      by (simp add: join_Cons)
    with True show ?thesis by blast
  next
    case False
    with Cons.prems have "y \<in> set hs" by simp
    from Cons.IH [OF this] obtain p q where pq: "join sep hs = p @ y @ q" by blast
    from \<open>y \<in> set hs\<close> have "hs \<noteq> []" by auto
    then have "join sep (h # hs) = (h @ sep @ p) @ y @ q"
      by (simp add: join_Cons pq)
    then show ?thesis by blast
  qed
qed

lemma occurrence_in_join_is_member:
  assumes "\<forall>x \<in> set hs. length x = length y \<and> d \<notin> set x"
    and "d \<notin> set y" and "y \<noteq> []"
    and "join [d] hs = p @ y @ q"
  shows "y \<in> set hs"
  using assms(1,4)
proof (induction hs arbitrary: p)
  case Nil
  with assms(3) show ?case by simp
next
  case (Cons h hs)
  from Cons.prems(1) have len: "length h = length y" by simp
  show ?case
  proof (cases "hs = []")
    case True
    with Cons.prems(2) have "h = p @ y @ q" by simp
    then have "length h = length p + length y + length q" by simp
    with len have "p = []" "q = []" by simp_all
    with \<open>h = p @ y @ q\<close> show ?thesis by simp
  next
    case False
    with Cons.prems(2) have eq: "h @ d # join [d] hs = p @ y @ q"
      by (simp add: join_Cons)
    consider "p = []" | "p \<noteq> []" "length p \<le> length h" | "length h < length p"
      by linarith
    then show ?thesis
    proof cases
      case 1
      with eq have "take (length y) (h @ d # join [d] hs) = take (length y) (y @ q)"
        by simp
      with len have "h = y" by simp
      then show ?thesis by simp
    next
      case 2
      from eq have "(h @ d # join [d] hs) ! length h = (p @ y @ q) ! length h"
        by simp
      moreover have "(h @ d # join [d] hs) ! length h = d"
        by simp
      moreover from 2 len have "length h - length p < length y"
        by (cases p) simp_all
      with 2 have "(p @ y @ q) ! length h = y ! (length h - length p)"
        by (simp add: nth_append)
      ultimately have "d = y ! (length h - length p)"
        by simp
      with \<open>length h - length p < length y\<close> have "d \<in> set y"
        by simp
      with assms(2) show ?thesis by simp
    next
      case 3
      from eq have "drop (Suc (length h)) (h @ d # join [d] hs) = drop (Suc (length h)) (p @ y @ q)"
        by simp
      with 3 have "join [d] hs = drop (Suc (length h)) p @ y @ q"
        by simp
      moreover from Cons.prems(1) have "\<forall>x \<in> set hs. length x = length y \<and> d \<notin> set x"
        by simp
      ultimately have "y \<in> set hs"
        by (rule Cons.IH [rotated])
      then show ?thesis by simp
    qed
  qed
qed

lemma str_in_join_uniform:
  assumes "\<forall>x \<in> set hs. length x = length y \<and> CHR ''-'' \<notin> set x"
    and "CHR ''-'' \<notin> set y" and "y \<noteq> []"
  shows "str_in y (join ''-'' hs) \<longleftrightarrow> y \<in> set hs"
  using occurrence_in_join_is_member [OF assms] member_occurs_in_join [of y hs "''-''"]
  by (auto simp: str_in_iff)

lemma merge_store_albums_uniform:
  assumes "\<forall>a \<in> set resolved \<union> set store_albums.
             length (albumhash a) = n \<and> CHR ''-'' \<notin> set (albumhash a)"
    and "0 < n"
  shows "merge_store_albums resolved store_albums
     = resolved @ filter (\<lambda>a. albumhash a \<notin> albumhash ` set resolved) store_albums"
proof -
  have "str_in (albumhash a) (join ''-'' (map albumhash resolved))
          \<longleftrightarrow> albumhash a \<in> albumhash ` set resolved"
    if "a \<in> set store_albums" for a
  proof -
    from that assms have "length (albumhash a) = n" "CHR ''-'' \<notin> set (albumhash a)"
      "albumhash a \<noteq> []"
      by auto
    moreover from assms(1) \<open>length (albumhash a) = n\<close>
    have "\<forall>x \<in> set (map albumhash resolved).
            length x = length (albumhash a) \<and> CHR ''-'' \<notin> set x"
      by auto
    ultimately show ?thesis
      using str_in_join_uniform [of "map albumhash resolved" "albumhash a"] by simp
  qed
  then have "filter (\<lambda>a. \<not> str_in (albumhash a) (join ''-'' (map albumhash resolved))) store_albums
      = filter (\<lambda>a. albumhash a \<notin> albumhash ` set resolved) store_albums"
    by (intro filter_cong) auto
  then show ?thesis
    by (simp add: merge_store_albums_filter)
qed

section \<open>The lookup in the album index\<close>

lemma find_album_loop_malformed:
  assumes "left \<le> right" and "py_index ALBUMS ((left + right) div 2) = Inr Malformed"
  shows "find_album_loop ALBUMS target left right printed
           = (Inl AttributeError, printed @ [nat ((left + right) div 2)])"
  using assms by (subst find_album_loop.simps) (simp add: Let_def)

text \<open>
  C5. A malformed element probed by \<open>find_album\<close> ends the lookup with the error of the
  second read of its \<open>hash\<close>, after the element has been printed once: on the index that
  holds only a malformed element, and on a sorted index of three where the album looked
  for is present behind a malformed element in the middle.
\<close>

theorem find_album_raises_on_malformed_element:
  "find_album create_album_hash [Malformed] albumtitle artist = (Inl AttributeError, [0])
   \<and> find_album title_then_artist [IndexAlbum ''aa'', Malformed, IndexAlbum ''ac''] ''a'' ''c''
     = (Inl AttributeError, [1])"
  by (simp add: find_album_def find_album_loop_malformed py_index_def)

lemma find_album_examples:
  "find_album title_then_artist [IndexAlbum ''aa'', IndexAlbum ''ab'', IndexAlbum ''ac''] ''a'' ''c''
     = (Inr (Some 2), [])"
  "find_album title_then_artist [] ''a'' ''c'' = (Inr None, [])"
  by (simp_all add: find_album_def find_album_loop.simps py_index_def title_then_artist_def
      Let_def)

section \<open>Extracting the tracks of an album\<close>

lemma find_track_None:
  "find_track pool h = None \<longleftrightarrow> (\<forall>t \<in> set pool. db_albumhash t \<noteq> h)"
  by (induction pool) (auto split: option.splits)

lemma find_track_Some:
  "find_track pool h = Some i \<Longrightarrow>
   \<exists>pre rest. pool = pre @ (pool ! i) # rest \<and> length pre = i
     \<and> (\<forall>t \<in> set pre. db_albumhash t \<noteq> h) \<and> db_albumhash (pool ! i) = h"
proof (induction pool arbitrary: i)
  case Nil
  then show ?case by simp
next
  case (Cons t ts)
  show ?case
  proof (cases "db_albumhash t = h")
    case True
    with Cons.prems have "i = 0" by simp
    with True show ?thesis
      by (intro exI [of _ "[]"] exI [of _ ts]) simp
  next
    case False
    with Cons.prems obtain j where j: "find_track ts h = Some j" "i = Suc j"
      by (auto split: option.splits)
    from Cons.IH [OF j(1)] obtain pre rest where
      "ts = pre @ (ts ! j) # rest" "length pre = j"
      "\<forall>t \<in> set pre. db_albumhash t \<noteq> h" "db_albumhash (ts ! j) = h"
      by blast
    with False j(2) show ?thesis
      by (intro exI [of _ "t # pre"] exI [of _ rest]) simp
  qed
qed

lemma find_tracks_loop_eq:
  "find_tracks_loop pool h found
     = (found @ filter (\<lambda>t. db_albumhash t = h) pool, filter (\<lambda>t. db_albumhash t \<noteq> h) pool)"
proof (induction pool h found rule: find_tracks_loop.induct)
  case (1 pool h found)
  show ?case
  proof (cases "find_track pool h")
    case None
    then have "\<forall>t \<in> set pool. db_albumhash t \<noteq> h"
      by (simp add: find_track_None)
    then have "filter (\<lambda>t. db_albumhash t = h) pool = []"
      and "filter (\<lambda>t. db_albumhash t \<noteq> h) pool = pool"
      by (simp_all add: filter_empty_conv filter_id_conv)
    with None show ?thesis
      by (subst find_tracks_loop.simps) simp
  next
    case (Some i)
    from find_track_Some [OF Some] obtain pre rest where
      split: "pool = pre @ (pool ! i) # rest" and
      pre: "\<forall>t \<in> set pre. db_albumhash t \<noteq> h" and
      hit: "db_albumhash (pool ! i) = h"
      by blast
    define track where "track = pool ! i"
    from pre hit have "track \<notin> set pre"
      by (auto simp: track_def)
    with split have removed: "remove1 track pool = pre @ rest"
      by (metis remove1.simps(2) remove1_append track_def)
    from pre have pre_eq: "filter (\<lambda>t. db_albumhash t = h) pre = []"
      and pre_ne: "filter (\<lambda>t. db_albumhash t \<noteq> h) pre = pre"
      by (simp_all add: filter_empty_conv filter_id_conv)
    have pool_eq: "filter (\<lambda>t. db_albumhash t = h) pool
        = track # filter (\<lambda>t. db_albumhash t = h) rest"
      by (subst split) (simp add: pre_eq hit track_def [symmetric] hit [unfolded track_def [symmetric]])
    have pool_ne: "filter (\<lambda>t. db_albumhash t \<noteq> h) pool
        = pre @ filter (\<lambda>t. db_albumhash t \<noteq> h) rest"
      by (subst split) (simp add: pre_ne hit)
    have "find_tracks_loop pool h found
        = find_tracks_loop (remove1 track pool) h (found @ [track])"
      by (subst find_tracks_loop.simps) (simp add: Some track_def Let_def)
    also have "\<dots> = ((found @ [track]) @ filter (\<lambda>t. db_albumhash t = h) (remove1 track pool),
        filter (\<lambda>t. db_albumhash t \<noteq> h) (remove1 track pool))"
      using "1.IH" [OF Some track_def] .
    also have "\<dots> = (found @ filter (\<lambda>t. db_albumhash t = h) pool,
        filter (\<lambda>t. db_albumhash t \<noteq> h) pool)"
      by (simp add: removed pool_eq pool_ne pre_eq pre_ne)
    finally show ?thesis .
  qed
qed

text \<open>
  C6, as amended. \<open>get_album_tracks\<close> returns exactly the tracks of the pool whose album
  hash is the hash of the title and artist, in the order of the pool; and when it returns,
  the pool holds the other tracks, sorted by album hash, followed by the tracks returned:
  the routine itself has put them back.
\<close>

theorem get_album_tracks_returns_album_and_restores_pool:
  "get_album_tracks create_album_hash DB_TRACKS album artist
     = (filter (\<lambda>t. db_albumhash t = create_album_hash album artist) DB_TRACKS,
        sort_key db_albumhash
          (filter (\<lambda>t. db_albumhash t \<noteq> create_album_hash album artist) DB_TRACKS)
        @ filter (\<lambda>t. db_albumhash t = create_album_hash album artist) DB_TRACKS)"
  by (simp add: get_album_tracks_def find_tracks_loop_eq sort_key_stable filter_sort Let_def)

theorem get_album_tracks_returns_album_and_restores_pool_witness:
  "get_album_tracks title_then_artist [track_1, track_2, track_3] ''a'' ''b''
     = ([track_1, track_3], [track_2, track_1, track_3])"
  using get_album_tracks_returns_album_and_restores_pool
    [of title_then_artist "[track_1, track_2, track_3]" "''a''" "''b''"]
  by (simp add: title_then_artist_def track_1_def track_2_def track_3_def)

text \<open>
  C6, as stated, fails: after the call the pool still contains a track of the album.
\<close>

theorem pool_still_holds_album_track:
  "db_albumhash track_1 = title_then_artist ''a'' ''b''
   \<and> track_1 \<in> set (snd (get_album_tracks title_then_artist [track_1, track_2, track_3] ''a'' ''b''))"
  by (simp add: get_album_tracks_def find_tracks_loop_eq sort_key_stable filter_sort
      title_then_artist_def track_1_def track_2_def track_3_def Let_def)

end
